theory Spec2Isabelle
  imports Main "HOL-Library.Word" "HOL-Library.Monad_Syntax"
begin

section \<open>Go values used by the package\<close>

text \<open>
  Go's \<open>int\<close> is taken at its width on 64-bit platforms: a 64-bit word read as two's
  complement. Addition and subtraction wrap around, comparisons with \<open>0\<close> are signed.
\<close>

type_synonym goint = "64 word"

text \<open>
  An \<open>error\<close> value. \<open>External\<close> stands for an error made outside this package (the HTTP
  transport, \<open>io\<close>, \<open>encoding/json\<close>, \<open>jsonapi\<close>), \<open>Errorf\<close> for one made by
  \<open>fmt.Errorf\<close> with the given message.
\<close>

datatype error =
    ErrMissingService
  | ErrMissingWAFID
  | Errorf string
  | External string

text \<open>
  A call either returns or panics. A nil pointer dereference and an index out of range are
  the two run-time panics the modelled code can raise.
\<close>

datatype panic = NilDereference | IndexOutOfRange

datatype 'a outcome = Returns 'a | Panics panic

text \<open>An element of a \<open>[]interface{}\<close>: a value of the expected type, or one of another type
  (named by what \<open>%T\<close> prints).\<close>

datatype 'a iface = Typed 'a | Untyped string

subsection \<open>strconv.Itoa and strconv.Atoi\<close>

text \<open>
  \<open>strconv\<close> belongs to Go's standard library. \<open>Itoa\<close> prints the decimal digits of a
  signed integer, with a leading minus sign for a negative one.
\<close>

definition digit_char :: "nat \<Rightarrow> char" where
  "digit_char d = ''0123456789'' ! d"

fun digits :: "nat \<Rightarrow> string" where
  "digits n = (if n < 10 then [digit_char n] else digits (n div 10) @ [digit_char (n mod 10)])"

declare digits.simps [simp del]

definition Itoa :: "goint \<Rightarrow> string" where
  "Itoa w = (if sint w < 0 then CHR ''-'' # digits (nat (- sint w)) else digits (nat (sint w)))"

text \<open>
  \<open>Atoi\<close> has a fast path for a text of 1 to 18 bytes, which cannot overflow, and leaves
  every other text to \<open>ParseInt(s, 10, 0)\<close>, which takes the sign off and hands the rest to
  \<open>ParseUint\<close>. \<open>ParseUint\<close> reads the bytes from the left: a byte that is not a decimal
  digit ends it with \<open>0\<close> and a syntax error, and a digit that takes the number past
  \<open>2^64 - 1\<close> ends it with that bound and a range error, whichever comes first. (Go tests
  the second with \<open>n >= cutoff\<close> before the multiplication and with the wrap-around of the
  addition; on unbounded integers both say \<open>n * 10 + d > 2^64 - 1\<close>.) \<open>ParseInt\<close> passes a
  syntax error on with \<open>0\<close>, and turns a number that does not fit the signed range into the
  nearest bound with a range error.
\<close>

datatype NumError = ErrSyntax | ErrRange

definition isDigit :: "char \<Rightarrow> bool" where
  "isDigit ch = (ch \<in> set ''0123456789'')"

definition digitVal :: "char \<Rightarrow> int" where
  "digitVal ch = of_char ch - 48"

definition maxUint64 :: int where
  "maxUint64 = 2 ^ 64 - 1"

text \<open>The loop of \<open>ParseUint\<close>, with the number read so far.\<close>

fun scanUint :: "int \<Rightarrow> string \<Rightarrow> int \<times> NumError option" where
  "scanUint n [] = (n, None)"
| "scanUint n (ch # cs) =
     (if \<not> isDigit ch then (0, Some ErrSyntax)
      else if maxUint64 div 10 + 1 \<le> n then (maxUint64, Some ErrRange)
      else
        let n1 = n * 10 + digitVal ch in
        if maxUint64 < n1 then (maxUint64, Some ErrRange) else scanUint n1 cs)"

definition ParseUint :: "string \<Rightarrow> int \<times> NumError option" where
  "ParseUint s = (if s = [] then (0, Some ErrSyntax) else scanUint 0 s)"

text \<open>A text without its leading sign, if it has one.\<close>

definition unsigned_part :: "string \<Rightarrow> string" where
  "unsigned_part s =
     (case s of
        [] \<Rightarrow> []
      | ch # r \<Rightarrow> if ch = CHR ''-'' \<or> ch = CHR ''+'' then r else s)"

definition ParseInt :: "string \<Rightarrow> goint \<times> NumError option" where
  "ParseInt s =
     (if s = [] then (0, Some ErrSyntax)
      else
        let neg = (hd s = CHR ''-'') in
        case ParseUint (unsigned_part s) of
          (un, err) \<Rightarrow>
            if err = Some ErrSyntax then (0, err)
            else if \<not> neg \<and> 2 ^ 63 \<le> un then (2 ^ 63 - 1, Some ErrRange)
            else if neg \<and> 2 ^ 63 < un then (- (2 ^ 63), Some ErrRange)
            else (if neg then - word_of_int un else word_of_int un, None))"

text \<open>The loop of the fast path: \<open>None\<close> at a byte that is not a digit.\<close>

fun fastDigits :: "int \<Rightarrow> string \<Rightarrow> int option" where
  "fastDigits n [] = Some n"
| "fastDigits n (ch # cs) =
     (if isDigit ch then fastDigits (n * 10 + digitVal ch) cs else None)"

definition Atoi :: "string \<Rightarrow> goint \<times> NumError option" where
  "Atoi s0 =
     (if 0 < length s0 \<and> length s0 < 19
      then
        let s = unsigned_part s0 in
        if length s < 1 then (0, Some ErrSyntax)
        else
          (case fastDigits 0 s of
             None \<Rightarrow> (0, Some ErrSyntax)
           | Some n \<Rightarrow> (word_of_int (if hd s0 = CHR ''-'' then - n else n), None))
      else ParseInt s0)"

text \<open>
  A text is numeric when it is an optional sign followed by decimal digits, at least one,
  and nothing else. \<open>leadingDigits\<close> is the number that the digits after the sign spell, up
  to the first byte that is not a digit (0 when there is none).
\<close>

definition numeric :: "string \<Rightarrow> bool" where
  "numeric s = (unsigned_part s \<noteq> [] \<and> list_all isDigit (unsigned_part s))"

abbreviation (input) shiftIn :: "int \<Rightarrow> char \<Rightarrow> int" where
  "shiftIn \<equiv> (\<lambda>a ch. a * 10 + digitVal ch)"

definition leadingDigits :: "string \<Rightarrow> int" where
  "leadingDigits s = foldl shiftIn 0 (takeWhile isDigit (unsigned_part s))"

subsection \<open>net/url\<close>

text \<open>
  \<open>net/url\<close> belongs to Go's standard library too. A parsed URL is represented by what its
  \<open>Query()\<close> method returns: for each key the list of its values, the empty list for a key
  that does not occur. \<open>url.Parse\<close> itself is a parameter of the functions that call it, of
  type \<open>string \<Rightarrow> URL option\<close>, where \<open>None\<close> is the result \<open>(nil, err)\<close>.
\<close>

datatype URL = URL (Query: "string \<Rightarrow> string list")

section \<open>The HTTP client\<close>

record RequestOptions =
  Params :: "string \<rightharpoonup> string"
  Headers :: "string \<rightharpoonup> string"

text \<open>
  Modelled from the spec: \<open>Client\<close> and its method \<open>Get\<close> are not among the sources.
  \<open>Get(path, options)\<close> issues one request and returns the response or an error. The
  client is a transport, which answers a request with an error or a response body of type
  \<open>'b\<close>, together with the requests issued so far, oldest first.
\<close>

record 'b Client =
  transport :: "string \<Rightarrow> RequestOptions \<Rightarrow> error + 'b"
  requests :: "(string \<times> RequestOptions) list"

definition Client_Get ::
  "'b Client \<Rightarrow> string \<Rightarrow> RequestOptions \<Rightarrow> 'b Client \<times> (error + 'b)" where
  "Client_Get c path ro = (c\<lparr>requests := requests c @ [(path, ro)]\<rparr>, transport c path ro)"

record paginationInfo =
  First :: string
  Last :: string
  Next :: string

section \<open>service_authorization.go\<close>

datatype SAUser = SAUser string

datatype SAService = SAService string

type_synonym Time = string

record ServiceAuthorization =
  ID :: string
  Permission :: string
  CreatedAt :: "Time option"
  UpdatedAt :: "Time option"
  DeletedAt :: "Time option"
  User :: "SAUser option"
  Service :: "SAService option"

record ListServiceAuthorizationsInput =
  PerPage :: goint
  Page :: goint

text \<open>
  Modelled from the spec: \<open>infoResponse\<close> and \<open>getResponseInfo\<close> are not among the sources.
  \<open>getResponseInfo\<close> decodes the \<open>links\<close> envelope of a response body (first, last and
  next, each the empty string when absent) or fails. The body of a response is a stream of
  bytes that two decoders read, \<open>getResponseInfo\<close> and \<open>jsonapi.UnmarshalManyPayload\<close>; it
  is represented by the results they give on it.
\<close>

record infoResponse =
  Links :: paginationInfo

record SABody =
  decodedInfo :: "error + infoResponse"
  decodedMany :: "error + ServiceAuthorization iface list"

definition getResponseInfo :: "SABody \<Rightarrow> error + infoResponse" where
  "getResponseInfo body = decodedInfo body"

definition UnmarshalManyPayload :: "SABody \<Rightarrow> error + ServiceAuthorization iface list" where
  "UnmarshalManyPayload body = decodedMany body"

record ListServiceAuthorizationsPaginator =
  consumed :: bool
  CurrentPage :: goint
  NextPage :: goint
  LastPage :: goint
  client :: "SABody Client"
  options :: ListServiceAuthorizationsInput

definition Remaining :: "ListServiceAuthorizationsPaginator \<Rightarrow> goint" where
  "Remaining p = (if LastPage p = 0 then 0 else LastPage p - CurrentPage p)"

definition HasNext :: "ListServiceAuthorizationsPaginator \<Rightarrow> bool" where
  "HasNext p = (\<not> consumed p \<or> Remaining p \<noteq> 0)"

definition NewListServiceAuthorizationsPaginator ::
  "SABody Client \<Rightarrow> ListServiceAuthorizationsInput \<Rightarrow> ListServiceAuthorizationsPaginator" where
  "NewListServiceAuthorizationsPaginator c i =
     \<lparr>consumed = False, CurrentPage = 0, NextPage = 0, LastPage = 0, client = c, options = i\<rparr>"

text \<open>
  \<open>listServiceAuthorizationsWithPage\<close> is one function of some seventy lines. Its parts
  are given in the order in which they run, each under the lines it stands for, and the
  function itself puts them together.
\<close>

definition maxPerPage :: goint where
  "maxPerPage = 100"

text \<open>Lines 217 to 223: the page size.\<close>

definition perPageOf :: "ListServiceAuthorizationsInput \<Rightarrow> goint" where
  "perPageOf i = (if PerPage i \<le>s 0 then maxPerPage else PerPage i)"

text \<open>Lines 225 to 235: the page to fetch, written to \<open>CurrentPage\<close> before the request.\<close>

definition turnPage ::
  "ListServiceAuthorizationsInput \<Rightarrow> ListServiceAuthorizationsPaginator \<Rightarrow>
   ListServiceAuthorizationsPaginator" where
  "turnPage i p =
     (if Page i \<le>s 0 \<and> CurrentPage p = 0 then p\<lparr>CurrentPage := 1\<rparr>
      else if \<not> consumed p then p\<lparr>CurrentPage := Page i\<rparr>
      else p\<lparr>CurrentPage := CurrentPage p + 1\<rparr>)"

text \<open>Lines 237 to 245: the request options.\<close>

definition pageRequest :: "goint \<Rightarrow> ListServiceAuthorizationsPaginator \<Rightarrow> RequestOptions" where
  "pageRequest perPage p =
     \<lparr>Params = [''page[size]'' \<mapsto> Itoa perPage, ''page[number]'' \<mapsto> Itoa (CurrentPage p)],
      Headers = [''Accept'' \<mapsto> ''application/vnd.api+json'']\<rparr>"

text \<open>The loop of lines 265 to 272: every element must be a \<open>*ServiceAuthorization\<close>.\<close>

fun typedItems :: "'a iface list \<Rightarrow> error + 'a list" where
  "typedItems [] = Inr []"
| "typedItems (Typed x # xs) =
     (case typedItems xs of Inl e \<Rightarrow> Inl e | Inr ys \<Rightarrow> Inr (x # ys))"
| "typedItems (Untyped t # xs) = Inl (Errorf (''unexpected response type: '' @ t))"

text \<open>Lines 252 to 272: the links, then the items, of a response body.\<close>

definition decodePage :: "SABody \<Rightarrow> error + (infoResponse \<times> ServiceAuthorization list)" where
  "decodePage body =
     (case getResponseInfo body of
        Inl err \<Rightarrow> Inl err
      | Inr info \<Rightarrow>
          (case UnmarshalManyPayload body of
             Inl err \<Rightarrow> Inl err
           | Inr data \<Rightarrow>
               (case typedItems data of
                  Inl err \<Rightarrow> Inl err
                | Inr s \<Rightarrow> Inr (info, s))))"

text \<open>
  The three statements of lines 275 to 277 (and 280 to 282): parse the link, discarding the
  error; take its query; read the first value of \<open>page[number]\<close> with \<open>Atoi\<close>, discarding
  the error. A nil URL and an empty list of values panic.
\<close>

definition linkPageNumber :: "(string \<Rightarrow> URL option) \<Rightarrow> string \<Rightarrow> goint outcome" where
  "linkPageNumber url_Parse l =
     (case url_Parse l of
        None \<Rightarrow> Panics NilDereference
      | Some u \<Rightarrow>
          (case Query u ''page[number]'' of
             [] \<Rightarrow> Panics IndexOutOfRange
           | v # _ \<Rightarrow> Returns (fst (Atoi v))))"

text \<open>Lines 274 to 283: \<open>NextPage\<close> from the next link, then \<open>LastPage\<close> from the last
  link, each only when the link is not the empty string. A panic leaves the paginator as it
  is at that point.\<close>

definition readLinks ::
  "(string \<Rightarrow> URL option) \<Rightarrow> paginationInfo \<Rightarrow> ListServiceAuthorizationsPaginator \<Rightarrow>
   ListServiceAuthorizationsPaginator \<times> unit outcome" where
  "readLinks url_Parse links p =
     (case (if Next links \<noteq> [] then linkPageNumber url_Parse (Next links)
            else Returns (NextPage p)) of
        Panics k \<Rightarrow> (p, Panics k)
      | Returns n \<Rightarrow>
          (case (if Last links \<noteq> [] then linkPageNumber url_Parse (Last links)
                 else Returns (LastPage p)) of
             Panics k \<Rightarrow> (p\<lparr>NextPage := n\<rparr>, Panics k)
           | Returns m \<Rightarrow> (p\<lparr>NextPage := n, LastPage := m\<rparr>, Returns ())))"

definition listServiceAuthorizationsWithPage ::
  "(string \<Rightarrow> URL option) \<Rightarrow> SABody Client \<Rightarrow> ListServiceAuthorizationsInput \<Rightarrow>
   ListServiceAuthorizationsPaginator \<Rightarrow>
   SABody Client \<times> ListServiceAuthorizationsPaginator \<times> (error + ServiceAuthorization list) outcome"
where
  "listServiceAuthorizationsWithPage url_Parse c i p =
     (let perPage = perPageOf i;
          p1 = turnPage i p;
          requestOptions = pageRequest perPage p1;
          (c1, resp) = Client_Get c ''/service-authorizations'' requestOptions
      in case resp of
           Inl err \<Rightarrow> (c1, p1, Returns (Inl err))
         | Inr body \<Rightarrow>
             (case decodePage body of
                Inl err \<Rightarrow> (c1, p1, Returns (Inl err))
              | Inr (info, s) \<Rightarrow>
                  (case readLinks url_Parse (Links info) p1 of
                     (p2, Panics k) \<Rightarrow> (c1, p2, Panics k)
                   | (p2, Returns _) \<Rightarrow> (c1, p2\<lparr>consumed := True\<rparr>, Returns (Inr s)))))"

text \<open>\<open>GetNext\<close> calls the client the paginator holds, with the options it holds. The
  client is held by reference, so the paginator sees the client after the call.\<close>

definition GetNext ::
  "(string \<Rightarrow> URL option) \<Rightarrow> ListServiceAuthorizationsPaginator \<Rightarrow>
   ListServiceAuthorizationsPaginator \<times> (error + ServiceAuthorization list) outcome" where
  "GetNext url_Parse p =
     (case listServiceAuthorizationsWithPage url_Parse (client p) (options p) p of
        (c1, p1, r) \<Rightarrow> (p1\<lparr>client := c1\<rparr>, r))"

section \<open>waf.go: the rule statuses of a firewall\<close>

text \<open>
  Field names that another structure of the package has already taken carry a suffix
  (\<open>Service_w\<close>, \<open>Status_f\<close>, \<open>RuleID_f\<close>, \<open>Page_f\<close>, \<open>Links_w\<close>); the unexported fields of
  \<open>receivedWAFRuleStatus\<close> carry the prefix \<open>recv_\<close>.
\<close>

datatype ruleStatusRuleRelation = ruleStatusRuleRelation goint

datatype ruleStatusWAFRelation = ruleStatusWAFRelation string

record receivedWAFRuleStatus =
  recv_id :: string
  recv_rule :: "ruleStatusRuleRelation option"
  recv_waf :: "ruleStatusWAFRelation option"
  recv_status :: string

record WAFRuleStatus =
  RuleID :: goint
  WAFID :: string
  StatusID :: string
  Status :: string

text \<open>\<open>simplify\<close> reads through the two relation pointers; a nil one panics.\<close>

definition simplify :: "receivedWAFRuleStatus \<Rightarrow> WAFRuleStatus outcome" where
  "simplify received =
     (case recv_rule received of
        None \<Rightarrow> Panics NilDereference
      | Some (ruleStatusRuleRelation rid) \<Rightarrow>
          (case recv_waf received of
             None \<Rightarrow> Panics NilDereference
           | Some (ruleStatusWAFRelation wid) \<Rightarrow>
               Returns \<lparr>RuleID = rid, WAFID = wid, StatusID = recv_id received,
                        Status = recv_status received\<rparr>))"

record GetWAFRuleStatusesFilters =
  Status_f :: string
  Accuracy :: goint
  Maturity :: goint
  Message :: string
  Revision :: goint
  RuleID_f :: string
  TagID :: goint
  TagName :: string
  Version :: string
  Tags :: "goint list"
  MaxResults :: goint
  Page_f :: goint

record GetWAFRuleStatusesInput =
  Service_w :: string
  WAF :: string
  Filters :: GetWAFRuleStatusesFilters

text \<open>\<open>strings.Join\<close> of Go's standard library.\<close>

fun Join :: "string list \<Rightarrow> string \<Rightarrow> string" where
  "Join [] sep = []"
| "Join [x] sep = x"
| "Join (x # y # ys) sep = x @ sep @ Join (y # ys) sep"

text \<open>
  \<open>formatFilters\<close> walks a map of twelve pairings and keeps the ones that are not at their
  zero value. The keys differ, so the order of the walk does not show in the result. The
  three cases of its type switch:
\<close>

definition stringFilter :: "string \<Rightarrow> string \<Rightarrow> (string \<rightharpoonup> string) \<Rightarrow> (string \<rightharpoonup> string)" where
  "stringFilter key v result = (if v \<noteq> [] then result(key \<mapsto> v) else result)"

definition intFilter :: "string \<Rightarrow> goint \<Rightarrow> (string \<rightharpoonup> string) \<Rightarrow> (string \<rightharpoonup> string)" where
  "intFilter key v result = (if v \<noteq> 0 then result(key \<mapsto> Itoa v) else result)"

definition intsFilter ::
  "string \<Rightarrow> goint list \<Rightarrow> (string \<rightharpoonup> string) \<Rightarrow> (string \<rightharpoonup> string)" where
  "intsFilter key vs result =
     (if 0 < length vs then result(key \<mapsto> Join (map Itoa vs) '','') else result)"

definition formatFilters :: "GetWAFRuleStatusesInput \<Rightarrow> (string \<rightharpoonup> string)" where
  "formatFilters i =
     (let input = Filters i in
      (stringFilter ''filter[status]'' (Status_f input)
       \<circ> intFilter ''filter[rule][accuracy]'' (Accuracy input)
       \<circ> intFilter ''filter[rule][maturity]'' (Maturity input)
       \<circ> stringFilter ''filter[rule][message]'' (Message input)
       \<circ> intFilter ''filter[rule][revision]'' (Revision input)
       \<circ> stringFilter ''filter[rule][rule_id]'' (RuleID_f input)
       \<circ> intFilter ''filter[rule][tags]'' (TagID input)
       \<circ> stringFilter ''filter[rule][tags][name]'' (TagName input)
       \<circ> stringFilter ''filter[rule][version]'' (Version input)
       \<circ> intsFilter ''include'' (Tags input)
       \<circ> intFilter ''page[size]'' (MaxResults input)
       \<circ> intFilter ''page[number]'' (Page_f input)) Map.empty)"

record GetWAFRuleStatusesResponse =
  Rules :: "WAFRuleStatus list"
  Links_w :: paginationInfo

text \<open>
  The body of a rule status response is read by \<open>ioutil.ReadAll\<close>, decoded by
  \<open>json.Unmarshal\<close> into a \<open>linksResponse\<close> (whose error \<open>getPages\<close> drops, so a body that
  does not decode gives the zero links) and decoded by \<open>jsonapi.UnmarshalManyPayload\<close>. It
  is represented by the results of the three.
\<close>

record WAFBody =
  readAll :: "error option"
  decodedLinks :: paginationInfo
  decodedStatuses :: "error + receivedWAFRuleStatus iface list"

definition getPages :: "WAFBody \<Rightarrow> error + (paginationInfo \<times> WAFBody)" where
  "getPages body =
     (case readAll body of
        Some err \<Rightarrow> Inl err
      | None \<Rightarrow> Inr (decodedLinks body, body))"

text \<open>The loop of lines 724 to 730. The rules appended before a wrong type or a panic stay
  in the answer.\<close>

fun appendRules ::
  "GetWAFRuleStatusesResponse \<Rightarrow> receivedWAFRuleStatus iface list \<Rightarrow>
   GetWAFRuleStatusesResponse \<times> error option outcome" where
  "appendRules answer [] = (answer, Returns None)"
| "appendRules answer (Untyped t # xs) =
     (answer, Returns (Some (Errorf ''got back response of unexpected type'')))"
| "appendRules answer (Typed x # xs) =
     (case simplify x of
        Panics k \<Rightarrow> (answer, Panics k)
      | Returns r \<Rightarrow> appendRules (answer\<lparr>Rules := Rules answer @ [r]\<rparr>) xs)"

text \<open>
  \<open>fetchWAFRuleStatusesPage\<close> calls itself on the next link for as long as a response has
  one, so it need not return: the result \<open>None\<close> is a run that goes on for ever. What the
  call on the next link returns is dropped; a panic in it is not.
\<close>

partial_function (option) fetchWAFRuleStatusesPage ::
  "WAFBody Client \<Rightarrow> GetWAFRuleStatusesResponse \<Rightarrow> string \<Rightarrow> RequestOptions \<Rightarrow>
   (WAFBody Client \<times> GetWAFRuleStatusesResponse \<times> error option outcome) option" where
  "fetchWAFRuleStatusesPage c answer path filters =
     (case Client_Get c path filters of
        (c1, Inl err) \<Rightarrow> Some (c1, answer, Returns (Some err))
      | (c1, Inr resp) \<Rightarrow>
          (case getPages resp of
             Inl err \<Rightarrow> Some (c1, answer, Returns (Some err))
           | Inr (pages, body) \<Rightarrow>
               (case decodedStatuses body of
                  Inl err \<Rightarrow> Some (c1, answer, Returns (Some err))
                | Inr data \<Rightarrow>
                    (case appendRules answer data of
                       (answer1, Panics k) \<Rightarrow> Some (c1, answer1, Panics k)
                     | (answer1, Returns (Some err)) \<Rightarrow> Some (c1, answer1, Returns (Some err))
                     | (answer1, Returns None) \<Rightarrow>
                         if Next pages \<noteq> []
                         then fetchWAFRuleStatusesPage c1 answer1 (Next pages) filters \<bind>
                                (\<lambda>(c2, answer2, r).
                                   case r of
                                     Panics k \<Rightarrow> Some (c2, answer2, Panics k)
                                   | Returns _ \<Rightarrow> Some (c2, answer2, Returns None))
                         else Some (c1, answer1, Returns None)))))"

definition GetWAFRuleStatuses ::
  "WAFBody Client \<Rightarrow> GetWAFRuleStatusesInput \<Rightarrow>
   (WAFBody Client \<times> (GetWAFRuleStatusesResponse \<times> error option) outcome) option" where
  "GetWAFRuleStatuses c i =
     (let statusResponse = \<lparr>Rules = [], Links_w = \<lparr>First = [], Last = [], Next = []\<rparr>\<rparr> in
      if Service_w i = [] then Some (c, Returns (statusResponse, Some ErrMissingService))
      else if WAF i = [] then Some (c, Returns (statusResponse, Some ErrMissingWAFID))
      else
        let filters = \<lparr>Params = formatFilters i, Headers = Map.empty\<rparr> in
        fetchWAFRuleStatusesPage c statusResponse
          (''/service/'' @ Service_w i @ ''/wafs/'' @ WAF i @ ''/rule_statuses'') filters \<bind>
          (\<lambda>(c1, answer, r).
             case r of
               Panics k \<Rightarrow> Some (c1, Panics k)
             | Returns err \<Rightarrow> Some (c1, Returns (answer, err))))"

section \<open>Observing a call, and example servers\<close>

text \<open>
  The request that \<open>GetNext\<close> issues on a paginator is the one its client's record ends
  with after the call, and the response is what the transport answers to it.
\<close>

definition requestOf ::
  "(string \<Rightarrow> URL option) \<Rightarrow> ListServiceAuthorizationsPaginator \<Rightarrow> string \<times> RequestOptions" where
  "requestOf url_Parse p = last (requests (client (fst (GetNext url_Parse p))))"

definition responseOf ::
  "(string \<Rightarrow> URL option) \<Rightarrow> ListServiceAuthorizationsPaginator \<Rightarrow> error + SABody" where
  "responseOf url_Parse p =
     (case requestOf url_Parse p of (path, ro) \<Rightarrow> transport (client p) path ro)"

text \<open>
  \<open>url.Parse\<close> on seven links, as \<open>net/url\<close> answers them: a lone colon has no scheme and
  does not parse; the others parse, with the query values shown. The table stands for
  \<open>url.Parse\<close> on these links only.
\<close>

definition pageLink :: "string \<Rightarrow> string" where
  "pageLink n = ''https://api.fastly.com/service-authorizations?page[number]='' @ n"

definition exampleParse :: "string \<Rightarrow> URL option" where
  "exampleParse l =
     (if l = '':'' then None
      else if l = ''https://api.fastly.com/service-authorizations'' then Some (URL (\<lambda>key. []))
      else if l = pageLink ''1''
        then Some (URL (\<lambda>key. if key = ''page[number]'' then [''1''] else []))
      else if l = pageLink ''2''
        then Some (URL (\<lambda>key. if key = ''page[number]'' then [''2''] else []))
      else if l = pageLink ''3''
        then Some (URL (\<lambda>key. if key = ''page[number]'' then [''3''] else []))
      else if l = pageLink ''x''
        then Some (URL (\<lambda>key. if key = ''page[number]'' then [''x''] else []))
      else if l = pageLink ''99999999999999999999x''
        then Some (URL (\<lambda>key. if key = ''page[number]'' then [''99999999999999999999x''] else []))
      else None)"

definition exampleAuthorization :: ServiceAuthorization where
  "exampleAuthorization =
     \<lparr>ID = ''3krg2uUGZzb2W9Euo4moOY'', Permission = ''full'', CreatedAt = None,
      UpdatedAt = None, DeletedAt = None, User = Some (SAUser ''4tKBSuFhNEiIpNDxmmVydt''),
      Service = Some (SAService ''7i6HN3TK9wS159v2gPAZ8A'')\<rparr>"

text \<open>A page with one authorization and the given next and last links.\<close>

definition examplePage :: "string \<Rightarrow> string \<Rightarrow> SABody" where
  "examplePage nxt lst =
     \<lparr>decodedInfo = Inr \<lparr>Links = \<lparr>First = [], Last = lst, Next = nxt\<rparr>\<rparr>,
      decodedMany = Inr [Typed exampleAuthorization]\<rparr>"

text \<open>A transport that answers by the \<open>page[number]\<close> of the request, from a table of
  pages, and fails for a page that is not in the table.\<close>

definition serve :: "(string \<times> 'b) list \<Rightarrow> string \<Rightarrow> RequestOptions \<Rightarrow> error + 'b" where
  "serve pages path ro =
     (case Params ro ''page[number]'' of
        None \<Rightarrow> Inl (External ''400 Bad Request'')
      | Some n \<Rightarrow>
          (case map_of pages n of
             None \<Rightarrow> Inl (External ''404 Not Found'')
           | Some b \<Rightarrow> Inr b))"

definition exampleClient :: "(string \<times> 'b) list \<Rightarrow> 'b Client" where
  "exampleClient pages = \<lparr>transport = serve pages, requests = []\<rparr>"

text \<open>A server of two pages whose second page has a next link with the page number \<open>x\<close>
  and a last link with twenty nines before an \<open>x\<close>, a
  request that names no starting page, a new paginator on that server, and the paginator
  after its first call.\<close>

definition brokenPages :: "(string \<times> SABody) list" where
  "brokenPages =
     [(''1'', examplePage (pageLink ''2'') (pageLink ''3'')),
      (''2'', examplePage (pageLink ''x'') (pageLink ''99999999999999999999x''))]"

definition noStart :: ListServiceAuthorizationsInput where
  "noStart = \<lparr>PerPage = 0, Page = 0\<rparr>"

definition brokenStart :: ListServiceAuthorizationsPaginator where
  "brokenStart = NewListServiceAuthorizationsPaginator (exampleClient brokenPages) noStart"

definition brokenSecond :: ListServiceAuthorizationsPaginator where
  "brokenSecond = fst (GetNext exampleParse brokenStart)"

text \<open>More servers: one of a single page; one whose next link is a lone colon; one whose
  last link has no query; one that answers no request. And more inputs: a page size of
  250, one of 25, and the starting page \<open>-1\<close>.\<close>

definition singlePage :: "(string \<times> SABody) list" where
  "singlePage = [(''1'', examplePage [] (pageLink ''1''))]"


definition bigPages :: ListServiceAuthorizationsInput where
  "bigPages = \<lparr>PerPage = 250, Page = 0\<rparr>"

definition smallPages :: ListServiceAuthorizationsInput where
  "smallPages = \<lparr>PerPage = 25, Page = 0\<rparr>"

definition negativeStart :: ListServiceAuthorizationsInput where
  "negativeStart = \<lparr>PerPage = 0, Page = - 1\<rparr>"


definition downClient :: "SABody Client" where
  "downClient = exampleClient []"

subsection \<open>Pages of rule statuses\<close>

text \<open>The rules a list of statuses adds to the answer when every status is of the expected
  type and has both of its relations; \<open>None\<close> for any other list.\<close>

fun rulesOf :: "receivedWAFRuleStatus iface list \<Rightarrow> WAFRuleStatus list option" where
  "rulesOf [] = Some []"
| "rulesOf (Untyped t # xs) = None"
| "rulesOf (Typed x # xs) =
     (case simplify x of
        Panics k \<Rightarrow> None
      | Returns r \<Rightarrow> map_option ((#) r) (rulesOf xs))"

text \<open>
  \<open>served t filters path ps stop\<close>: from \<open>path\<close> on, the transport \<open>t\<close> answers with the
  pages \<open>ps\<close> one after the other, each read and decoded without error, each given with the
  rules it holds, and each with a next link that is not empty; the next link of the last of
  them is \<open>stop\<close>. \<open>failsAt t filters path\<close>: the fetch of \<open>path\<close> ends in a transport error,
  a read error or a decode error of the statuses.
\<close>

fun served ::
  "(string \<Rightarrow> RequestOptions \<Rightarrow> error + WAFBody) \<Rightarrow> RequestOptions \<Rightarrow> string \<Rightarrow>
   (WAFBody \<times> WAFRuleStatus list) list \<Rightarrow> string \<Rightarrow> bool" where
  "served t filters path [] stop = (path = stop)"
| "served t filters path ((b, rs) # ps) stop =
     (t path filters = Inr b \<and> readAll b = None
      \<and> (case decodedStatuses b of Inl e \<Rightarrow> False | Inr data \<Rightarrow> rulesOf data = Some rs)
      \<and> Next (decodedLinks b) \<noteq> []
      \<and> served t filters (Next (decodedLinks b)) ps stop)"

definition failsAt ::
  "(string \<Rightarrow> RequestOptions \<Rightarrow> error + WAFBody) \<Rightarrow> RequestOptions \<Rightarrow> string \<Rightarrow> bool" where
  "failsAt t filters path =
     (case t path filters of
        Inl e \<Rightarrow> True
      | Inr b \<Rightarrow> readAll b \<noteq> None \<or> isl (decodedStatuses b))"

text \<open>A transport that answers by the path of the request, from a table, and a firewall
  whose first page of statuses links to a second page that the transport does not have.\<close>

definition servePaths :: "(string \<times> 'b) list \<Rightarrow> string \<Rightarrow> RequestOptions \<Rightarrow> error + 'b" where
  "servePaths pages path ro =
     (case map_of pages path of
        None \<Rightarrow> Inl (External ''404 Not Found'')
      | Some b \<Rightarrow> Inr b)"

definition exampleInput :: GetWAFRuleStatusesInput where
  "exampleInput =
     \<lparr>Service_w = ''7i6HN3TK9wS159v2gPAZ8A'', WAF = ''5Kbr2ygSdgCrQWvcXXPm3C'',
      Filters = \<lparr>Status_f = [], Accuracy = 0, Maturity = 0, Message = [], Revision = 0,
                 RuleID_f = [], TagID = 0, TagName = [], Version = [], Tags = [],
                 MaxResults = 0, Page_f = 0\<rparr>\<rparr>"

definition exampleStatus :: receivedWAFRuleStatus where
  "exampleStatus =
     \<lparr>recv_id = ''5Kbr2ygSdgCrQWvcXXPm3C-1010010'',
      recv_rule = Some (ruleStatusRuleRelation 1010010),
      recv_waf = Some (ruleStatusWAFRelation ''5Kbr2ygSdgCrQWvcXXPm3C''),
      recv_status = ''log''\<rparr>"

definition exampleStatuses :: WAFBody where
  "exampleStatuses =
     \<lparr>readAll = None,
      decodedLinks = \<lparr>First = [], Last = [], Next = ''/rule_statuses?page[number]=2''\<rparr>,
      decodedStatuses = Inr [Typed exampleStatus]\<rparr>"

definition wafClient :: "WAFBody Client" where
  "wafClient =
     \<lparr>transport = servePaths
        [(''/service/7i6HN3TK9wS159v2gPAZ8A/wafs/5Kbr2ygSdgCrQWvcXXPm3C/rule_statuses'',
          exampleStatuses)],
      requests = []\<rparr>"

section \<open>Printing and reading numbers\<close>

text \<open>What \<open>Atoi\<close> returns for a text that is not numeric, and that it reads back what
  \<open>Itoa\<close> prints, for every 64-bit integer.\<close>

lemma digitVal_range: "isDigit ch \<Longrightarrow> 0 \<le> digitVal ch \<and> digitVal ch \<le> 9"
  by (auto simp: isDigit_def digitVal_def)

lemma foldl_shiftIn_mono:
  "list_all isDigit ds \<Longrightarrow> 0 \<le> n \<Longrightarrow> n \<le> foldl shiftIn n ds"
proof (induction ds arbitrary: n)
  case Nil
  then show ?case by simp
next
  case (Cons d ds)
  then have d: "0 \<le> digitVal d" using digitVal_range by simp
  have "n \<le> n * 10 + digitVal d" using Cons.prems(2) d by simp
  also have "\<dots> \<le> foldl shiftIn (n * 10 + digitVal d) ds"
    using Cons.IH [of "n * 10 + digitVal d"] Cons.prems d by simp
  finally show ?case by simp
qed

lemma foldl_shiftIn_bound:
  "list_all isDigit ds \<Longrightarrow> 0 \<le> n \<Longrightarrow> foldl shiftIn n ds < (n + 1) * 10 ^ length ds"
proof (induction ds arbitrary: n)
  case Nil
  then show ?case by simp
next
  case (Cons d ds)
  then have d: "0 \<le> digitVal d" "digitVal d \<le> 9" using digitVal_range by simp_all
  have "foldl shiftIn (n * 10 + digitVal d) ds < (n * 10 + digitVal d + 1) * 10 ^ length ds"
    using Cons.IH [of "n * 10 + digitVal d"] Cons.prems d by simp
  also have "\<dots> \<le> ((n + 1) * 10) * 10 ^ length ds"
    using d by (intro mult_right_mono) simp_all
  finally show ?case by (simp add: algebra_simps)
qed

lemma takeWhile_all: "list_all isDigit (takeWhile isDigit cs)"
  by (induction cs) simp_all

lemma scanUint_eq:
  assumes "0 \<le> n" "n \<le> maxUint64"
  shows "scanUint n cs =
     (if maxUint64 < foldl shiftIn n (takeWhile isDigit cs) then (maxUint64, Some ErrRange)
      else if takeWhile isDigit cs \<noteq> cs then (0, Some ErrSyntax)
      else (foldl shiftIn n cs, None))"
  using assms
proof (induction cs arbitrary: n)
  case Nil
  then show ?case by simp
next
  case (Cons c cs)
  show ?case
  proof (cases "isDigit c")
    case False
    with Cons.prems show ?thesis by simp
  next
    case True
    then have d: "0 \<le> digitVal c" "digitVal c \<le> 9" using digitVal_range by simp_all
    let ?n1 = "n * 10 + digitVal c"
    have mono: "?n1 \<le> foldl shiftIn ?n1 (takeWhile isDigit cs)"
      using foldl_shiftIn_mono [OF takeWhile_all, of ?n1 cs] Cons.prems d by simp
    show ?thesis
    proof (cases "maxUint64 < ?n1")
      case over: True
      then have "maxUint64 < foldl shiftIn ?n1 (takeWhile isDigit cs)" using mono by simp
      with True over show ?thesis by (simp add: Let_def)
    next
      case fit: False
      then have c: "\<not> maxUint64 div 10 + 1 \<le> n"
        using d by (simp add: maxUint64_def)
      have "0 \<le> ?n1" using Cons.prems d by simp
      from Cons.IH [OF this] fit have
        "scanUint ?n1 cs =
          (if maxUint64 < foldl shiftIn ?n1 (takeWhile isDigit cs) then (maxUint64, Some ErrRange)
           else if takeWhile isDigit cs \<noteq> cs then (0, Some ErrSyntax)
           else (foldl shiftIn ?n1 cs, None))"
        by simp
      with True fit c show ?thesis by (simp add: Let_def)
    qed
  qed
qed

lemma fastDigits_eq:
  "fastDigits n cs = (if list_all isDigit cs then Some (foldl shiftIn n cs) else None)"
  by (induction cs arbitrary: n) simp_all

lemma takeWhile_neq: "\<not> list_all isDigit cs \<Longrightarrow> takeWhile isDigit cs \<noteq> cs"
  by (metis takeWhile_all)

lemma takeWhile_length: "length (takeWhile isDigit cs) \<le> length cs"
  by (induction cs) simp_all

lemma unsigned_part_length: "length (unsigned_part s) \<le> length s"
  by (cases s) (simp_all add: unsigned_part_def)

lemma unsigned_part_long: "19 \<le> length s \<Longrightarrow> unsigned_part s \<noteq> []"
  by (cases s) (auto simp: unsigned_part_def)

lemma Atoi_not_numeric:
  assumes "\<not> numeric v"
  shows "Atoi v =
     (if leadingDigits v \<le> maxUint64 then (0, Some ErrSyntax)
      else if hd v = CHR ''-'' then (- (2 ^ 63), Some ErrRange)
      else (2 ^ 63 - 1, Some ErrRange))"
proof (cases "0 < length v \<and> length v < 19")
  case True
  let ?s = "unsigned_part v"
  have len: "length (takeWhile isDigit ?s) \<le> 18"
    using takeWhile_length [of ?s] unsigned_part_length [of v] True by simp
  have "leadingDigits v < (0 + 1) * 10 ^ length (takeWhile isDigit ?s)"
    unfolding leadingDigits_def by (rule foldl_shiftIn_bound [OF takeWhile_all]) simp
  also have "\<dots> \<le> 10 ^ 18"
    using power_increasing [OF len, of "10::int"] by simp
  finally have fits: "leadingDigits v \<le> maxUint64" by (simp add: maxUint64_def)
  from assms have "?s = [] \<or> \<not> list_all isDigit ?s" by (auto simp: numeric_def)
  then have "Atoi v = (0, Some ErrSyntax)"
    using True by (auto simp: Atoi_def fastDigits_eq Let_def)
  with fits show ?thesis by simp
next
  case False
  then have A: "Atoi v = ParseInt v" by (auto simp: Atoi_def)
  show ?thesis
  proof (cases "v = []")
    case True
    with A show ?thesis
      by (simp add: ParseInt_def leadingDigits_def unsigned_part_def maxUint64_def)
  next
    case ne: False
    with False have long: "19 \<le> length v" by simp
    let ?s = "unsigned_part v"
    have s: "?s \<noteq> []" using long by (rule unsigned_part_long)
    with assms have "\<not> list_all isDigit ?s"
      by (simp add: numeric_def)
    then have bad: "takeWhile isDigit ?s \<noteq> ?s"
      by (rule takeWhile_neq)
    have scan: "ParseUint ?s =
        (if maxUint64 < leadingDigits v then (maxUint64, Some ErrRange) else (0, Some ErrSyntax))"
      using s bad
      by (simp add: ParseUint_def leadingDigits_def scanUint_eq [of 0, simplified] maxUint64_def)
    show ?thesis
      using ne by (simp add: A ParseInt_def scan Let_def maxUint64_def)
  qed
qed


lemma digit_char_props:
  assumes "d < 10"
  shows "isDigit (digit_char d)" and "digitVal (digit_char d) = int d"
    and "digit_char d \<noteq> CHR ''-''" and "digit_char d \<noteq> CHR ''+''"
proof -
  from assms have "d \<in> {0, 1, 2, 3, 4, 5, 6, 7, 8, 9}" by auto
  then show "isDigit (digit_char d)" and "digitVal (digit_char d) = int d"
    and "digit_char d \<noteq> CHR ''-''" and "digit_char d \<noteq> CHR ''+''"
    by (auto simp: digit_char_def isDigit_def digitVal_def)
qed

lemma digits_props:
  "digits n \<noteq> [] \<and> list_all isDigit (digits n)
   \<and> foldl (\<lambda>a ch. a * 10 + digitVal ch) 0 (digits n) = int n
   \<and> hd (digits n) \<noteq> CHR ''-'' \<and> hd (digits n) \<noteq> CHR ''+''"
proof (induction n rule: digits.induct)
  case (1 n)
  show ?case
  proof (cases "n < 10")
    case True
    then show ?thesis
      by (subst (1 2 3 4 5) digits.simps) (simp add: digit_char_props)
  next
    case False
    with 1 have ih: "digits (n div 10) \<noteq> []" "list_all isDigit (digits (n div 10))"
      "foldl (\<lambda>a ch. a * 10 + digitVal ch) 0 (digits (n div 10)) = int (n div 10)"
      "hd (digits (n div 10)) \<noteq> CHR ''-''" "hd (digits (n div 10)) \<noteq> CHR ''+''"
      by simp_all
    have m: "n mod 10 < 10" by simp
    have eq: "digits n = digits (n div 10) @ [digit_char (n mod 10)]"
      using False by (subst digits.simps) simp
    show ?thesis
      unfolding eq using ih
      by (simp add: digit_char_props [OF m] zdiv_int zmod_int)
  qed
qed

lemma unsigned_part_digits: "unsigned_part (digits n) = digits n"
  using digits_props [of n] by (cases "digits n") (simp_all add: unsigned_part_def)

lemma Atoi_signed_digits:
  assumes "int n \<le> 2 ^ 63" and "neg \<or> int n < 2 ^ 63"
  shows "Atoi ((if neg then [CHR ''-''] else []) @ digits n) =
           (if neg then - word_of_nat n else word_of_nat n, None)"
proof -
  let ?s0 = "(if neg then [CHR ''-''] else []) @ digits n"
  note dp = digits_props [of n]
  have u: "unsigned_part ?s0 = digits n"
    by (simp add: unsigned_part_digits) (simp add: unsigned_part_def)
  have h: "(hd ?s0 = CHR ''-'') = neg" "?s0 \<noteq> []"
    using dp by auto
  have fits: "int n \<le> maxUint64" using assms(1) by (simp add: maxUint64_def)
  have tw: "takeWhile isDigit (digits n) = digits n"
    using dp by (simp add: takeWhile_eq_all_conv list_all_iff)
  have scan: "ParseUint (digits n) = (int n, None)"
    using dp fits by (simp add: ParseUint_def scanUint_eq [of 0, simplified] tw maxUint64_def)
  have fast: "fastDigits 0 (digits n) = Some (int n)"
    using dp by (simp add: fastDigits_eq)
  show ?thesis
  proof (cases "0 < length ?s0 \<and> length ?s0 < 19")
    case True
    then have "Atoi ?s0 = (word_of_int (if neg then - int n else int n), None)"
      unfolding Atoi_def u Let_def using dp h by (simp add: fast)
    then show ?thesis by simp
  next
    case False
    then have "Atoi ?s0 = ParseInt ?s0" unfolding Atoi_def by (simp only: if_False)
    also have "\<dots> = (if neg then - word_of_nat n else word_of_nat n, None)"
      unfolding ParseInt_def u Let_def scan using h assms by auto
    finally show ?thesis .
  qed
qed

lemma Atoi_Itoa: "Atoi (Itoa w) = (w, None)"
proof (cases "sint w < 0")
  case False
  have b: "sint w < 2 ^ 63" using sint_lt [of w] by simp
  from Atoi_signed_digits [of "nat (sint w)" False] False b
  show ?thesis by (simp add: Itoa_def)
next
  case True
  have b: "- (2 ^ 63) \<le> sint w" using sint_ge [of w] by simp
  from Atoi_signed_digits [of "nat (- sint w)" True] True b
  show ?thesis by (simp add: Itoa_def)
qed

section \<open>What one call of GetNext does\<close>

lemma not_sle_zero: "(\<not> (x::goint) \<le>s 0) = (0 <s x)"
  by (simp add: word_sle_eq word_sless_alt not_le)

lemma GetNext_requests:
  "requests (client (fst (GetNext parse p))) =
     requests (client p) @
       [(''/service-authorizations'', pageRequest (perPageOf (options p)) (turnPage (options p) p))]"
  unfolding GetNext_def listServiceAuthorizationsWithPage_def Client_Get_def Let_def prod.case
  by (simp split: sum.split outcome.split prod.split)

lemma requestOf_eq:
  "requestOf parse p =
     (''/service-authorizations'', pageRequest (perPageOf (options p)) (turnPage (options p) p))"
  by (simp add: requestOf_def GetNext_requests)

lemma responseOf_eq:
  "responseOf parse p =
     transport (client p) ''/service-authorizations''
       (pageRequest (perPageOf (options p)) (turnPage (options p) p))"
  by (simp add: responseOf_def requestOf_eq)

lemma readLinks_frame:
  "readLinks parse l p = (p2, r) \<Longrightarrow>
     consumed p2 = consumed p \<and> CurrentPage p2 = CurrentPage p \<and> options p2 = options p
     \<and> client p2 = client p"
  by (auto simp: readLinks_def split: outcome.splits)

lemma turnPage_frame:
  "consumed (turnPage i p) = consumed p \<and> options (turnPage i p) = options p
   \<and> NextPage (turnPage i p) = NextPage p \<and> LastPage (turnPage i p) = LastPage p"
  by (simp add: turnPage_def)

lemma GetNext_options:
  "options (fst (GetNext parse p)) = options p"
  unfolding GetNext_def listServiceAuthorizationsWithPage_def Client_Get_def Let_def prod.case
  by (auto split: sum.split outcome.split prod.split simp: turnPage_frame dest: readLinks_frame)

lemma GetNext_CurrentPage:
  "CurrentPage (fst (GetNext parse p)) = CurrentPage (turnPage (options p) p)"
  unfolding GetNext_def listServiceAuthorizationsWithPage_def Client_Get_def Let_def prod.case
  by (auto split: sum.split outcome.split prod.split dest: readLinks_frame)

lemma GetNext_failed:
  assumes "snd (GetNext parse p) = Returns (Inl e)"
  shows "fst (GetNext parse p) =
           (turnPage (options p) p)\<lparr>client := client (fst (GetNext parse p))\<rparr>"
  using assms
  unfolding GetNext_def listServiceAuthorizationsWithPage_def Client_Get_def Let_def prod.case
  by (auto split: sum.splits outcome.splits prod.splits)

lemma GetNext_succeeded:
  assumes "snd (GetNext parse p) = Returns (Inr s)"
  shows "consumed (fst (GetNext parse p))"
  using assms
  unfolding GetNext_def listServiceAuthorizationsWithPage_def Client_Get_def Let_def prod.case
  by (auto split: sum.splits outcome.splits prod.splits)

lemma decodePage_Inr:
  "getResponseInfo body = Inr info \<Longrightarrow> UnmarshalManyPayload body = Inr data \<Longrightarrow>
   typedItems data = Inr s \<Longrightarrow> decodePage body = Inr (info, s)"
  by (simp add: decodePage_def)

lemma turnPage_CurrentPage:
  "CurrentPage (turnPage i p) =
     (if Page i \<le>s 0 \<and> CurrentPage p = 0 then 1
      else if \<not> consumed p then Page i else CurrentPage p + 1)"
  by (simp add: turnPage_def)

lemma Itoa_small:
  "Itoa 0 = ''0''" "Itoa 1 = ''1''" "Itoa 2 = ''2''" "Itoa 5 = ''5''" "Itoa 6 = ''6''"
  "Itoa 25 = ''25''" "Itoa 100 = ''100''" "Itoa 250 = ''250''" "Itoa (- 1) = ''-1''"
  by (simp_all add: Itoa_def digits.simps digit_char_def)

lemma GetNext_returned:
  assumes "snd (GetNext parse p) = Returns (Inr s)"
  shows "\<exists>body info p2.
           responseOf parse p = Inr body
         \<and> decodePage body = Inr (info, s)
         \<and> readLinks parse (Links info) (turnPage (options p) p) = (p2, Returns ())
         \<and> fst (GetNext parse p) = p2\<lparr>consumed := True, client := client (fst (GetNext parse p))\<rparr>"
  using assms unfolding responseOf_eq
  unfolding GetNext_def listServiceAuthorizationsWithPage_def Client_Get_def Let_def prod.case
  by (auto split: sum.splits outcome.splits prod.splits)

lemma decodePage_info:
  "decodePage body = Inr (info, s) \<Longrightarrow> getResponseInfo body = Inr info"
  by (auto simp: decodePage_def split: sum.splits)

lemma readLinks_Returns:
  assumes "readLinks parse l p = (p2, Returns ())"
  shows "(Next l \<noteq> [] \<longrightarrow> (\<exists>u v vs. parse (Next l) = Some u \<and> Query u ''page[number]'' = v # vs
            \<and> NextPage p2 = fst (Atoi v)))
       \<and> (Last l \<noteq> [] \<longrightarrow> (\<exists>u v vs. parse (Last l) = Some u \<and> Query u ''page[number]'' = v # vs
            \<and> LastPage p2 = fst (Atoi v)))
       \<and> (Next l = [] \<longrightarrow> NextPage p2 = NextPage p)
       \<and> (Last l = [] \<longrightarrow> LastPage p2 = LastPage p)"
  using assms
  by (auto simp: readLinks_def linkPageNumber_def split: outcome.splits option.splits list.splits if_splits)

lemma readLinks_cases:
  obtains (ret) p2 where "readLinks parse l p = (p2, Returns ())"
  | (pan) p2 k where "readLinks parse l p = (p2, Panics k)"
  by (cases "readLinks parse l p"; rename_tac p2 r; case_tac r) auto

lemma GetNext_links_returned:
  assumes "responseOf parse p = Inr body"
    and "decodePage body = Inr (info, s)"
    and "readLinks parse (Links info) (turnPage (options p) p) = (p2, Returns ())"
  shows "snd (GetNext parse p) = Returns (Inr s)"
    and "NextPage (fst (GetNext parse p)) = NextPage p2"
    and "LastPage (fst (GetNext parse p)) = LastPage p2"
    and "consumed (fst (GetNext parse p))"
  using assms unfolding responseOf_eq
  unfolding GetNext_def listServiceAuthorizationsWithPage_def Client_Get_def Let_def prod.case
  by simp_all


subsection \<open>The example servers, run\<close>

lemmas example_defs =
  exampleClient_def serve_def examplePage_def pageLink_def exampleParse_def brokenPages_def
  noStart_def NewListServiceAuthorizationsPaginator_def brokenStart_def

lemmas call_defs =
  GetNext_def listServiceAuthorizationsWithPage_def Client_Get_def turnPage_def pageRequest_def
  perPageOf_def maxPerPage_def decodePage_def getResponseInfo_def UnmarshalManyPayload_def
  readLinks_def linkPageNumber_def

lemma Atoi_examples:
  "Atoi ''1'' = (1, None)" "Atoi ''2'' = (2, None)" "Atoi ''3'' = (3, None)"
  "Atoi ''x'' = (0, Some ErrSyntax)"
  "Atoi ''99999999999999999999x'' = (2 ^ 63 - 1, Some ErrRange)"
  by (simp_all add: Atoi_def ParseInt_def ParseUint_def unsigned_part_def isDigit_def
      digitVal_def maxUint64_def Let_def)

lemma broken_first:
  "GetNext exampleParse brokenStart =
     (\<lparr>consumed = True, CurrentPage = 1, NextPage = 2, LastPage = 3,
       client = \<lparr>transport = serve brokenPages,
                 requests = [(''/service-authorizations'',
                    \<lparr>Params = [''page[size]'' \<mapsto> ''100'', ''page[number]'' \<mapsto> ''1''],
                     Headers = [''Accept'' \<mapsto> ''application/vnd.api+json'']\<rparr>)]\<rparr>,
       options = noStart\<rparr>,
      Returns (Inr [exampleAuthorization]))"
  by (simp add: call_defs example_defs Itoa_small Atoi_examples)

lemma broken_second:
  "brokenSecond =
     \<lparr>consumed = True, CurrentPage = 1, NextPage = 2, LastPage = 3,
       client = \<lparr>transport = serve brokenPages,
                 requests = [(''/service-authorizations'',
                    \<lparr>Params = [''page[size]'' \<mapsto> ''100'', ''page[number]'' \<mapsto> ''1''],
                     Headers = [''Accept'' \<mapsto> ''application/vnd.api+json'']\<rparr>)]\<rparr>,
       options = noStart\<rparr>"
  by (simp add: brokenSecond_def broken_first)

lemma broken_second_call:
  "snd (GetNext exampleParse brokenSecond) = Returns (Inr [exampleAuthorization])"
  "NextPage (fst (GetNext exampleParse brokenSecond)) = 0"
  "LastPage (fst (GetNext exampleParse brokenSecond)) = 2 ^ 63 - 1"
  "responseOf exampleParse brokenSecond =
     Inr (examplePage (pageLink ''x'') (pageLink ''99999999999999999999x''))"
  unfolding broken_second responseOf_eq
  by (simp_all add: call_defs example_defs Itoa_small Atoi_examples)

lemma single_first:
  "GetNext exampleParse (NewListServiceAuthorizationsPaginator (exampleClient singlePage) noStart) =
     (\<lparr>consumed = True, CurrentPage = 1, NextPage = 0, LastPage = 1,
       client = \<lparr>transport = serve singlePage,
                 requests = [(''/service-authorizations'',
                    \<lparr>Params = [''page[size]'' \<mapsto> ''100'', ''page[number]'' \<mapsto> ''1''],
                     Headers = [''Accept'' \<mapsto> ''application/vnd.api+json'']\<rparr>)]\<rparr>,
       options = noStart\<rparr>,
      Returns (Inr [exampleAuthorization]))"
  by (simp add: call_defs example_defs singlePage_def Itoa_small Atoi_examples)

lemma single_response:
  "responseOf exampleParse (NewListServiceAuthorizationsPaginator (exampleClient singlePage) noStart) =
     Inr (examplePage [] (pageLink ''1''))"
  unfolding responseOf_eq
  by (simp add: call_defs example_defs singlePage_def Itoa_small)


lemma down_first:
  "GetNext exampleParse (NewListServiceAuthorizationsPaginator downClient i) =
     ((turnPage i (NewListServiceAuthorizationsPaginator downClient i))
        \<lparr>client := client (fst (GetNext exampleParse
           (NewListServiceAuthorizationsPaginator downClient i)))\<rparr>,
      Returns (Inl (External ''404 Not Found'')))"
  by (simp add: call_defs example_defs downClient_def Let_def)

section \<open>The paginator's state\<close>

text \<open>
  C3. \<open>Remaining\<close> is \<open>0\<close> when \<open>LastPage\<close> is \<open>0\<close> and \<open>LastPage - CurrentPage\<close> otherwise;
  a paginator that has just been made, whose \<open>LastPage\<close> is \<open>0\<close>, has nothing remaining.
\<close>

theorem Remaining_spec:
  "Remaining p = (if LastPage p = 0 then 0 else LastPage p - CurrentPage p)
   \<and> Remaining (NewListServiceAuthorizationsPaginator c i) = 0"
  by (simp add: Remaining_def NewListServiceAuthorizationsPaginator_def)

theorem Remaining_spec_witness:
  "Remaining brokenSecond = 2 \<and> Remaining brokenStart = 0"
  using Remaining_spec [of brokenSecond "exampleClient brokenPages" noStart]
  by (simp add: broken_second brokenStart_def)

text \<open>
  C2. \<open>HasNext\<close> holds exactly when the paginator is not yet consumed or something
  remains. So it holds for every paginator not yet consumed, whatever \<open>Remaining\<close> says,
  and for a new one in particular.
\<close>

theorem HasNext_spec:
  "HasNext p = (\<not> consumed p \<or> Remaining p \<noteq> 0)
   \<and> (\<not> consumed p \<longrightarrow> HasNext p)
   \<and> HasNext (NewListServiceAuthorizationsPaginator c i)"
  by (simp add: HasNext_def NewListServiceAuthorizationsPaginator_def)

theorem HasNext_spec_witness:
  "HasNext brokenStart \<and> Remaining brokenStart = 0 \<and> HasNext brokenSecond
   \<and> \<not> HasNext (brokenSecond\<lparr>CurrentPage := 3\<rparr>)"
  using HasNext_spec [of brokenSecond "exampleClient brokenPages" noStart]
    HasNext_spec [of "brokenSecond\<lparr>CurrentPage := 3\<rparr>"]
  by (simp add: broken_second Remaining_def brokenStart_def NewListServiceAuthorizationsPaginator_def)

section \<open>The page number requested\<close>

text \<open>
  C1. Every call issues exactly one request, for the page that \<open>CurrentPage\<close> holds after
  the call. That page is 1 when no page was asked for and \<open>CurrentPage\<close> is 0, the page
  asked for on a paginator not yet consumed, and \<open>CurrentPage + 1\<close> on a consumed one. So
  after a call that succeeded the next call asks for the following page: pages 1 then 2
  from a new paginator with no starting page, pages 5 then 6 from one that starts at 5.
\<close>

theorem GetNext_page_number:
  "(\<exists>ro. requests (client (fst (GetNext parse p))) =
            requests (client p) @ [(''/service-authorizations'', ro)]
        \<and> requestOf parse p = (''/service-authorizations'', ro)
        \<and> Params ro ''page[number]'' = Some (Itoa (CurrentPage (fst (GetNext parse p))))
        \<and> (Page (options p) \<le>s 0 \<and> CurrentPage p = 0 \<longrightarrow>
              Params ro ''page[number]'' = Some ''1'')
        \<and> (\<not> consumed p \<and> 0 <s Page (options p) \<longrightarrow>
              Params ro ''page[number]'' = Some (Itoa (Page (options p))))
        \<and> (consumed p \<longrightarrow> Params ro ''page[number]'' = Some (Itoa (CurrentPage p + 1))))
   \<and> (snd (GetNext parse p) = Returns (Inr s) \<longrightarrow>
        Params (snd (requestOf parse (fst (GetNext parse p)))) ''page[number]'' =
          Some (Itoa (CurrentPage (fst (GetNext parse p)) + 1)))
   \<and> (p = NewListServiceAuthorizationsPaginator c i \<and> Page i \<le>s 0
        \<and> snd (GetNext parse p) = Returns (Inr s) \<longrightarrow>
        Params (snd (requestOf parse p)) ''page[number]'' = Some ''1''
        \<and> Params (snd (requestOf parse (fst (GetNext parse p)))) ''page[number]'' = Some ''2'')
   \<and> (p = NewListServiceAuthorizationsPaginator c i \<and> Page i = 5
        \<and> snd (GetNext parse p) = Returns (Inr s) \<longrightarrow>
        Params (snd (requestOf parse p)) ''page[number]'' = Some ''5''
        \<and> Params (snd (requestOf parse (fst (GetNext parse p)))) ''page[number]'' = Some ''6'')"
proof -
  let ?p1 = "fst (GetNext parse p)"
  let ?ro = "pageRequest (perPageOf (options p)) (turnPage (options p) p)"
  have number: "Params (snd (requestOf parse q)) ''page[number]'' =
      Some (Itoa (CurrentPage (turnPage (options q) q)))" for q
    by (simp add: requestOf_eq pageRequest_def)
  have first: "requests (client ?p1) = requests (client p) @ [(''/service-authorizations'', ?ro)]
      \<and> requestOf parse p = (''/service-authorizations'', ?ro)
      \<and> Params ?ro ''page[number]'' = Some (Itoa (CurrentPage ?p1))
      \<and> (Page (options p) \<le>s 0 \<and> CurrentPage p = 0 \<longrightarrow> Params ?ro ''page[number]'' = Some ''1'')
      \<and> (\<not> consumed p \<and> 0 <s Page (options p) \<longrightarrow>
            Params ?ro ''page[number]'' = Some (Itoa (Page (options p))))
      \<and> (consumed p \<longrightarrow> Params ?ro ''page[number]'' = Some (Itoa (CurrentPage p + 1)))"
    by (auto simp: GetNext_requests requestOf_eq GetNext_CurrentPage pageRequest_def
        turnPage_CurrentPage Itoa_small not_sle_zero [symmetric])
  have second: "Params (snd (requestOf parse ?p1)) ''page[number]'' =
      Some (Itoa (CurrentPage ?p1 + 1))" if "snd (GetNext parse p) = Returns (Inr s)"
  proof -
    have "consumed ?p1" using that by (rule GetNext_succeeded)
    then show ?thesis
      by (simp add: number turnPage_CurrentPage GetNext_options)
  qed
  have fresh1: "CurrentPage ?p1 = 1"
    if "p = NewListServiceAuthorizationsPaginator c i" "Page i \<le>s 0"
    using that
    by (simp add: GetNext_CurrentPage turnPage_CurrentPage NewListServiceAuthorizationsPaginator_def)
  have fresh5: "CurrentPage ?p1 = 5"
    if "p = NewListServiceAuthorizationsPaginator c i" "Page i = 5"
    using that
    by (simp add: GetNext_CurrentPage turnPage_CurrentPage NewListServiceAuthorizationsPaginator_def
        word_sle_eq)
  have a: "Params (snd (requestOf parse p)) ''page[number]'' = Some (Itoa (CurrentPage ?p1))"
    by (simp add: number GetNext_CurrentPage)
  show ?thesis
    using first second fresh1 fresh5 a by (auto simp: Itoa_small)
qed

theorem GetNext_page_number_witness:
  "Params (snd (requestOf exampleParse brokenStart)) ''page[number]'' = Some ''1''
   \<and> Params (snd (requestOf exampleParse brokenSecond)) ''page[number]'' = Some ''2''"
proof -
  have h: "brokenStart = NewListServiceAuthorizationsPaginator (exampleClient brokenPages) noStart
      \<and> Page noStart \<le>s 0
      \<and> snd (GetNext exampleParse brokenStart) = Returns (Inr [exampleAuthorization])"
    by (simp add: broken_first) (simp add: brokenStart_def noStart_def)
  from GetNext_page_number [of exampleParse brokenStart "[exampleAuthorization]"
      "exampleClient brokenPages" noStart] h
  have "Params (snd (requestOf exampleParse brokenStart)) ''page[number]'' = Some ''1''
      \<and> Params (snd (requestOf exampleParse (fst (GetNext exampleParse brokenStart))))
          ''page[number]'' = Some ''2''"
    by blast
  then show ?thesis by (simp only: brokenSecond_def)
qed

section \<open>The page size requested\<close>

text \<open>
  C6. The one request a call issues carries \<open>page[size]\<close>: the text \<open>100\<close> when
  \<open>PerPage\<close> is zero or negative, and the decimal text of \<open>PerPage\<close> when it is positive,
  \<open>25\<close> for 25.
\<close>

theorem page_size_emitted:
  "\<exists>ro. requests (client (fst (GetNext parse p))) =
           requests (client p) @ [(''/service-authorizations'', ro)]
      \<and> (PerPage (options p) \<le>s 0 \<longrightarrow> Params ro ''page[size]'' = Some ''100'')
      \<and> (0 <s PerPage (options p) \<longrightarrow> Params ro ''page[size]'' = Some (Itoa (PerPage (options p))))
      \<and> (PerPage (options p) = 25 \<longrightarrow> Params ro ''page[size]'' = Some ''25'')"
  by (auto simp: GetNext_requests pageRequest_def perPageOf_def maxPerPage_def Itoa_small
      not_sle_zero [symmetric] word_sle_eq)

theorem page_size_emitted_witness:
  "map (\<lambda>r. Params (snd r) ''page[size]'')
     (requests (client (fst (GetNext exampleParse brokenStart)))) = [Some ''100'']
   \<and> map (\<lambda>r. Params (snd r) ''page[size]'')
     (requests (client (fst (GetNext exampleParse
        (NewListServiceAuthorizationsPaginator (exampleClient brokenPages) smallPages))))) =
       [Some ''25'']"
  using page_size_emitted [of exampleParse brokenStart]
    page_size_emitted [of exampleParse
      "NewListServiceAuthorizationsPaginator (exampleClient brokenPages) smallPages"]
  by (auto simp: brokenStart_def noStart_def smallPages_def exampleClient_def
      NewListServiceAuthorizationsPaginator_def)

text \<open>
  C5, as amended. The page size is not capped. The number sent as \<open>page[size]\<close>, in
  decimal text that reads back as that number, is 100 when \<open>PerPage\<close> is zero or negative
  and \<open>PerPage\<close> itself otherwise. So it is at most 100 when \<open>PerPage\<close> is at most 100, and
  is \<open>PerPage\<close>, and greater than 100, when \<open>PerPage\<close> is greater than 100.
\<close>

theorem page_size_not_capped:
  "\<exists>ro n. requests (client (fst (GetNext parse p))) =
           requests (client p) @ [(''/service-authorizations'', ro)]
      \<and> Params ro ''page[size]'' = Some (Itoa n) \<and> Atoi (Itoa n) = (n, None)
      \<and> n = (if PerPage (options p) \<le>s 0 then 100 else PerPage (options p))
      \<and> (PerPage (options p) \<le>s 100 \<longrightarrow> n \<le>s 100)
      \<and> (100 <s PerPage (options p) \<longrightarrow> n = PerPage (options p) \<and> 100 <s n)"
  by (auto simp: GetNext_requests pageRequest_def perPageOf_def maxPerPage_def
      word_sle_eq word_sless_alt Atoi_Itoa)

theorem page_size_not_capped_witness:
  "map (\<lambda>r. Params (snd r) ''page[size]'')
     (requests (client (fst (GetNext exampleParse
        (NewListServiceAuthorizationsPaginator (exampleClient brokenPages) smallPages))))) =
       [Some (Itoa 25)]
   \<and> map (\<lambda>r. Params (snd r) ''page[size]'')
     (requests (client (fst (GetNext exampleParse
        (NewListServiceAuthorizationsPaginator (exampleClient brokenPages) bigPages))))) =
       [Some (Itoa 250)]
   \<and> map (\<lambda>r. Params (snd r) ''page[size]'')
     (requests (client (fst (GetNext exampleParse brokenStart)))) = [Some (Itoa 100)]"
  using page_size_not_capped [of exampleParse
      "NewListServiceAuthorizationsPaginator (exampleClient brokenPages) smallPages"]
    page_size_not_capped [of exampleParse
      "NewListServiceAuthorizationsPaginator (exampleClient brokenPages) bigPages"]
    page_size_not_capped [of exampleParse brokenStart]
  by (auto simp: smallPages_def bigPages_def brokenStart_def noStart_def exampleClient_def
      NewListServiceAuthorizationsPaginator_def word_sle_eq)

text \<open>
  The claim as first stated, that the size sent never exceeds 100, fails for a \<open>PerPage\<close>
  of 250: the request carries \<open>page[size]=250\<close>.
\<close>

theorem page_size_capped_counterexample:
  "PerPage bigPages = 250 \<and> (100::goint) <s 250 \<and> Atoi ''250'' = (250, None)
   \<and> Params (snd (requestOf exampleParse
        (NewListServiceAuthorizationsPaginator (exampleClient brokenPages) bigPages)))
       ''page[size]'' = Some ''250''"
  by (simp add: requestOf_eq pageRequest_def perPageOf_def bigPages_def Itoa_small
      NewListServiceAuthorizationsPaginator_def word_sle_eq word_sless_alt
      Atoi_Itoa [of 250, unfolded Itoa_small])

section \<open>Links that do not parse\<close>

text \<open>
  C4, as amended. Take a response that decodes and whose next and last links are each
  either empty or parsed by \<open>url.Parse\<close> into a URL with a \<open>page[number]\<close> value. Then the
  call returns the items and no error. When the next link is not empty and its
  \<open>page[number]\<close> is not numeric, \<open>Atoi\<close> reports an error, which is dropped, and \<open>NextPage\<close>
  is overwritten with the number \<open>Atoi\<close> returns beside it, whatever \<open>NextPage\<close> was before:
  0 when the digits before the first byte that is not a digit spell a number of at most
  \<open>2^64 - 1\<close> (a syntax error), and the least or the greatest 64-bit integer, by the sign,
  when they spell a greater one (a range error). Likewise the last link and \<open>LastPage\<close>.
\<close>

theorem malformed_link_resets_page:
  assumes "responseOf parse p = Inr body"
    and "getResponseInfo body = Inr info"
    and "UnmarshalManyPayload body = Inr data"
    and "typedItems data = Inr s"
    and "Next (Links info) = []
         \<or> (parse (Next (Links info)) = Some u \<and> Query u ''page[number]'' = v # vs)"
    and "Last (Links info) = []
         \<or> (parse (Last (Links info)) = Some u' \<and> Query u' ''page[number]'' = v' # vs')"
  shows "snd (GetNext parse p) = Returns (Inr s)
       \<and> (Next (Links info) \<noteq> [] \<and> \<not> numeric v \<longrightarrow>
            snd (Atoi v) \<noteq> None
            \<and> NextPage (fst (GetNext parse p)) = fst (Atoi v)
            \<and> NextPage (fst (GetNext parse p)) =
                (if leadingDigits v \<le> maxUint64 then 0
                 else if hd v = CHR ''-'' then - (2 ^ 63) else 2 ^ 63 - 1))
       \<and> (Last (Links info) \<noteq> [] \<and> \<not> numeric v' \<longrightarrow>
            snd (Atoi v') \<noteq> None
            \<and> LastPage (fst (GetNext parse p)) = fst (Atoi v')
            \<and> LastPage (fst (GetNext parse p)) =
                (if leadingDigits v' \<le> maxUint64 then 0
                 else if hd v' = CHR ''-'' then - (2 ^ 63) else 2 ^ 63 - 1))"
proof -
  have dec: "decodePage body = Inr (info, s)"
    using assms(2-4) by (rule decodePage_Inr)
  have bad: "snd (Atoi w) \<noteq> None
      \<and> fst (Atoi w) = (if leadingDigits w \<le> maxUint64 then 0
           else if hd w = CHR ''-'' then - (2 ^ 63) else 2 ^ 63 - 1)"
    if "\<not> numeric w" for w
    by (simp add: Atoi_not_numeric [OF that])
  show ?thesis
  proof (cases rule: readLinks_cases [of parse "Links info" "turnPage (options p) p"])
    case (pan p2 k)
    with assms(5,6) show ?thesis
      by (auto simp: readLinks_def linkPageNumber_def split: if_splits outcome.splits)
  next
    case (ret p2)
    note after = GetNext_links_returned [OF assms(1) dec ret]
    have n: "NextPage p2 = fst (Atoi v)" if "Next (Links info) \<noteq> []"
      using readLinks_Returns [OF ret] assms(5) that by auto
    have l: "LastPage p2 = fst (Atoi v')" if "Last (Links info) \<noteq> []"
      using readLinks_Returns [OF ret] assms(6) that by auto
    show ?thesis
      using n l bad [of v] bad [of v'] by (simp add: after)
  qed
qed

theorem malformed_link_resets_page_witness:
  "snd (GetNext exampleParse brokenSecond) = Returns (Inr [exampleAuthorization])
   \<and> NextPage (fst (GetNext exampleParse brokenSecond)) = 0
   \<and> LastPage (fst (GetNext exampleParse brokenSecond)) = 2 ^ 63 - 1"
proof -
  let ?nines = "''99999999999999999999x''"
  let ?body = "examplePage (pageLink ''x'') (pageLink ?nines)"
  let ?info = "\<lparr>Links = \<lparr>First = [], Last = pageLink ?nines, Next = pageLink ''x''\<rparr>\<rparr>"
  let ?u = "URL (\<lambda>key. if key = ''page[number]'' then [''x''] else [])"
  let ?u' = "URL (\<lambda>key. if key = ''page[number]'' then [?nines] else [])"
  have h1: "responseOf exampleParse brokenSecond = Inr ?body"
    by (rule broken_second_call)
  have h2: "getResponseInfo ?body = Inr ?info"
    by (simp add: getResponseInfo_def examplePage_def)
  have h3: "UnmarshalManyPayload ?body = Inr [Typed exampleAuthorization]"
    by (simp add: UnmarshalManyPayload_def examplePage_def)
  have h4: "typedItems [Typed exampleAuthorization] = Inr [exampleAuthorization]"
    by simp
  have h5: "Next (Links ?info) = []
      \<or> (exampleParse (Next (Links ?info)) = Some ?u \<and> Query ?u ''page[number]'' = ''x'' # [])"
    by (simp add: pageLink_def exampleParse_def)
  have h6: "Last (Links ?info) = []
      \<or> (exampleParse (Last (Links ?info)) = Some ?u' \<and> Query ?u' ''page[number]'' = ?nines # [])"
    by (simp add: pageLink_def exampleParse_def)
  have links: "Next (Links ?info) \<noteq> [] \<and> Last (Links ?info) \<noteq> []"
    by (simp add: pageLink_def)
  have bad: "\<not> numeric ''x'' \<and> \<not> numeric ?nines"
    by (simp add: numeric_def unsigned_part_def isDigit_def)
  have lead: "leadingDigits ''x'' \<le> maxUint64 \<and> \<not> leadingDigits ?nines \<le> maxUint64
      \<and> hd ?nines \<noteq> CHR ''-''"
    by (simp add: leadingDigits_def unsigned_part_def isDigit_def digitVal_def maxUint64_def)
  from malformed_link_resets_page [OF h1 h2 h3 h4 h5 h6] links bad lead
  show ?thesis by (simp add: Atoi_examples)
qed

text \<open>
  The claim as first stated, that the field keeps its value, fails on the second call of
  the two-page server: the next link has the \<open>page[number]\<close> \<open>x\<close>, \<open>NextPage\<close> was 2 and is
  0 afterwards.
\<close>

theorem malformed_link_keeps_page_counterexample:
  "NextPage brokenSecond = 2
   \<and> responseOf exampleParse brokenSecond =
       Inr (examplePage (pageLink ''x'') (pageLink ''99999999999999999999x''))
   \<and> snd (GetNext exampleParse brokenSecond) = Returns (Inr [exampleAuthorization])
   \<and> NextPage (fst (GetNext exampleParse brokenSecond)) = 0
   \<and> NextPage (fst (GetNext exampleParse brokenSecond)) \<noteq> NextPage brokenSecond"
  by (simp add: broken_second_call) (simp add: broken_second)



section \<open>After a call\<close>

text \<open>
  C7. After a call that succeeded on a response whose last link is not empty and has as
  its \<open>page[number]\<close> the page just fetched (the \<open>CurrentPage\<close> after the call, which is
  the page the request named), nothing remains and \<open>HasNext\<close> is false. This holds for
  every paginator, one that has made no call before among them.
\<close>

theorem last_page_reached:
  assumes "GetNext parse p = (p', Returns (Inr s))"
    and "responseOf parse p = Inr body"
    and "getResponseInfo body = Inr info"
    and "Last (Links info) \<noteq> []"
    and "parse (Last (Links info)) = Some u"
    and "Query u ''page[number]'' = v # vs"
    and "fst (Atoi v) = CurrentPage p'"
  shows "Remaining p' = 0 \<and> \<not> HasNext p'"
proof -
  have ret: "snd (GetNext parse p) = Returns (Inr s)" and p': "p' = fst (GetNext parse p)"
    using assms(1) by simp_all
  from GetNext_returned [OF ret] assms(2) obtain info' p2 where
    dec: "decodePage body = Inr (info', s)" and
    links: "readLinks parse (Links info') (turnPage (options p) p) = (p2, Returns ())"
    by auto
  from decodePage_info [OF dec] assms(3) have info: "info' = info" by simp
  note after = GetNext_links_returned [OF assms(2) dec links]
  from readLinks_Returns [OF links] assms(4-6) info
  have "LastPage p2 = fst (Atoi v)" by auto
  with after assms(7) have "LastPage p' = CurrentPage p'" "consumed p'"
    by (simp_all add: p')
  then show ?thesis
    by (simp add: Remaining_def HasNext_def)
qed

theorem last_page_reached_witness:
  "Remaining (fst (GetNext exampleParse
      (NewListServiceAuthorizationsPaginator (exampleClient singlePage) noStart))) = 0
   \<and> \<not> HasNext (fst (GetNext exampleParse
      (NewListServiceAuthorizationsPaginator (exampleClient singlePage) noStart)))"
proof -
  let ?info = "\<lparr>Links = \<lparr>First = [], Last = pageLink ''1'', Next = []\<rparr>\<rparr>"
  let ?u = "URL (\<lambda>key. if key = ''page[number]'' then [''1''] else [])"
  have h3: "getResponseInfo (examplePage [] (pageLink ''1'')) = Inr ?info"
    by (simp add: getResponseInfo_def examplePage_def)
  have h4: "Last (Links ?info) \<noteq> []"
    by (simp add: pageLink_def)
  have h5: "exampleParse (Last (Links ?info)) = Some ?u"
    by (simp add: pageLink_def exampleParse_def)
  have h6: "Query ?u ''page[number]'' = [''1'']"
    by simp
  have h7: "fst (Atoi ''1'') = CurrentPage \<lparr>consumed = True, CurrentPage = 1, NextPage = 0, LastPage = 1,
       client = \<lparr>transport = serve singlePage,
                 requests = [(''/service-authorizations'',
                    \<lparr>Params = [''page[size]'' \<mapsto> ''100'', ''page[number]'' \<mapsto> ''1''],
                     Headers = [''Accept'' \<mapsto> ''application/vnd.api+json'']\<rparr>)]\<rparr>,
       options = noStart\<rparr>"
    by (simp add: Atoi_examples)
  from last_page_reached [OF single_first single_response h3 h4 h5 h6 h7]
  show ?thesis by (simp add: single_first)
qed

text \<open>
  C9, as amended. A call writes \<open>CurrentPage\<close> before the request and \<open>consumed\<close> only
  at its end. So when the first call of a new paginator with no starting page (\<open>Page\<close>
  zero or negative) returns an error, the request was for page 1, \<open>CurrentPage\<close> is 1 and
  \<open>consumed\<close> is false; the next call then sets \<open>CurrentPage\<close> to \<open>Page\<close> and requests
  that page: \<open>page[number]=0\<close> when \<open>Page\<close> is 0, a negative number when it is negative.
\<close>

theorem failed_first_call_retry:
  assumes "p = NewListServiceAuthorizationsPaginator c i"
    and "Page i \<le>s 0"
    and "snd (GetNext parse p) = Returns (Inl e)"
  shows "Params (snd (requestOf parse p)) ''page[number]'' = Some ''1''
       \<and> CurrentPage (fst (GetNext parse p)) = 1
       \<and> \<not> consumed (fst (GetNext parse p))
       \<and> Params (snd (requestOf parse (fst (GetNext parse p)))) ''page[number]'' =
           Some (Itoa (Page i))
       \<and> (Page i = 0 \<longrightarrow>
           Params (snd (requestOf parse (fst (GetNext parse p)))) ''page[number]'' = Some ''0'')
       \<and> CurrentPage (fst (GetNext parse (fst (GetNext parse p)))) = Page i"
proof -
  let ?p1 = "fst (GetNext parse p)"
  have p1: "?p1 = (turnPage i p)\<lparr>client := client ?p1\<rparr>"
    using GetNext_failed [OF assms(3)] assms(1)
    by (simp add: NewListServiceAuthorizationsPaginator_def)
  have tp: "turnPage i p = p\<lparr>CurrentPage := 1\<rparr>"
    using assms(1,2) by (simp add: turnPage_def NewListServiceAuthorizationsPaginator_def)
  have o: "options p = i" and n: "\<not> consumed p"
    using assms(1) by (simp_all add: NewListServiceAuthorizationsPaginator_def)
  have c1: "CurrentPage ?p1 = 1"
    by (simp add: GetNext_CurrentPage o tp)
  have o1: "options ?p1 = i"
    by (simp add: GetNext_options o)
  have "consumed ?p1 = consumed (turnPage i p)"
    using arg_cong [OF p1, of consumed] by simp
  with n have n1: "\<not> consumed ?p1"
    by (simp add: turnPage_frame)
  have t2: "CurrentPage (turnPage i ?p1) = Page i"
    by (simp add: turnPage_CurrentPage c1 n1)
  have r1: "Params (snd (requestOf parse p)) ''page[number]'' = Some ''1''"
    using assms(1) tp
    by (simp add: requestOf_eq pageRequest_def NewListServiceAuthorizationsPaginator_def Itoa_small)
  have r2: "Params (snd (requestOf parse ?p1)) ''page[number]'' = Some (Itoa (Page i))"
    by (simp add: requestOf_eq pageRequest_def o1 t2)
  have c2: "CurrentPage (fst (GetNext parse ?p1)) = Page i"
    by (simp add: GetNext_CurrentPage o1 t2)
  show ?thesis
    using r1 c1 n1 r2 c2 by (auto simp: Itoa_small)
qed

theorem failed_first_call_retry_witness:
  "CurrentPage (fst (GetNext exampleParse (NewListServiceAuthorizationsPaginator downClient noStart))) = 1
   \<and> \<not> consumed (fst (GetNext exampleParse (NewListServiceAuthorizationsPaginator downClient noStart)))
   \<and> Params (snd (requestOf exampleParse
        (fst (GetNext exampleParse (NewListServiceAuthorizationsPaginator downClient noStart)))))
       ''page[number]'' = Some ''0''"
proof -
  have h2: "Page noStart \<le>s 0" by (simp add: noStart_def)
  have h3: "snd (GetNext exampleParse (NewListServiceAuthorizationsPaginator downClient noStart)) =
      Returns (Inl (External ''404 Not Found''))"
    by (subst down_first) simp
  have z: "Page noStart = 0" by (simp add: noStart_def)
  from failed_first_call_retry [OF refl h2 h3] z
  show ?thesis by blast
qed

text \<open>
  The claim as first stated, that the retry requests page 0 for every \<open>Page\<close> that is
  zero or negative, fails for \<open>Page = -1\<close>: the retry requests \<open>page[number]=-1\<close>.
\<close>

theorem retry_requests_page_zero_counterexample:
  "Page negativeStart \<le>s 0
   \<and> snd (GetNext exampleParse (NewListServiceAuthorizationsPaginator downClient negativeStart)) =
       Returns (Inl (External ''404 Not Found''))
   \<and> Params (snd (requestOf exampleParse
        (fst (GetNext exampleParse (NewListServiceAuthorizationsPaginator downClient negativeStart)))))
       ''page[number]'' = Some ''-1''"
proof -
  have h2: "Page negativeStart \<le>s 0" by (simp add: negativeStart_def word_sle_eq)
  have h3: "snd (GetNext exampleParse (NewListServiceAuthorizationsPaginator downClient negativeStart)) =
      Returns (Inl (External ''404 Not Found''))"
    by (subst down_first) simp
  have "Params (snd (requestOf exampleParse
        (fst (GetNext exampleParse (NewListServiceAuthorizationsPaginator downClient negativeStart)))))
       ''page[number]'' = Some (Itoa (Page negativeStart))"
    by (subst down_first)
      (simp add: requestOf_eq pageRequest_def turnPage_def negativeStart_def
        NewListServiceAuthorizationsPaginator_def word_sle_eq)
  with h2 h3 show ?thesis by (simp add: negativeStart_def Itoa_small)
qed

section \<open>waf.go: an error after the first page\<close>

lemma appendRules_rulesOf:
  "rulesOf data = Some rs \<Longrightarrow>
   appendRules answer data = (answer\<lparr>Rules := Rules answer @ rs\<rparr>, Returns None)"
proof (induction data arbitrary: answer rs)
  case Nil
  then show ?case by simp
next
  case (Cons x xs)
  show ?case
  proof (cases x)
    case (Untyped t)
    with Cons.prems show ?thesis by simp
  next
    case (Typed y)
    with Cons.prems obtain r rs' where
      r: "simplify y = Returns r" and rs': "rulesOf xs = Some rs'" and rs: "rs = r # rs'"
      by (auto split: outcome.splits)
    from Cons.IH [OF rs', of "answer\<lparr>Rules := Rules answer @ [r]\<rparr>"]
    show ?thesis by (simp add: Typed r rs)
  qed
qed

lemma fetch_failing:
  assumes "failsAt (transport c) filters path"
  shows "\<exists>c' e. fetchWAFRuleStatusesPage c answer path filters =
            Some (c', answer, Returns (Some e)) \<and> transport c' = transport c"
  using assms
  by (subst fetchWAFRuleStatusesPage.simps)
    (auto simp: failsAt_def Client_Get_def getPages_def isl_def split: sum.splits option.splits)

lemma fetch_served:
  assumes "served (transport c) filters path ps stop"
    and "failsAt (transport c) filters stop"
  shows "\<exists>c' e. fetchWAFRuleStatusesPage c answer path filters =
            Some (c', answer\<lparr>Rules := Rules answer @ concat (map snd ps)\<rparr>,
                  Returns (if ps = [] then Some e else None))
          \<and> transport c' = transport c"
  using assms
proof (induction ps arbitrary: c answer path)
  case Nil
  then have "failsAt (transport c) filters path" by simp
  from fetch_failing [OF this, of answer] show ?case by auto
next
  case (Cons p ps)
  obtain b rs where p: "p = (b, rs)" by (cases p)
  let ?c1 = "c\<lparr>requests := requests c @ [(path, filters)]\<rparr>"
  let ?a1 = "answer\<lparr>Rules := Rules answer @ rs\<rparr>"
  from Cons.prems(1) p obtain data where
    t: "transport c path filters = Inr b" and ra: "readAll b = None"
    and d: "decodedStatuses b = Inr data" and rs: "rulesOf data = Some rs"
    and nx: "Next (decodedLinks b) \<noteq> []"
    and sv: "served (transport ?c1) filters (Next (decodedLinks b)) ps stop"
    by (auto split: sum.splits)
  have fl: "failsAt (transport ?c1) filters stop"
    using Cons.prems(2) by simp
  from Cons.IH [OF sv fl, of ?a1] obtain c' e where
    rec: "fetchWAFRuleStatusesPage ?c1 ?a1 (Next (decodedLinks b)) filters =
            Some (c', ?a1\<lparr>Rules := Rules ?a1 @ concat (map snd ps)\<rparr>,
                  Returns (if ps = [] then Some e else None))"
    and tr: "transport c' = transport c"
    by auto
  have "fetchWAFRuleStatusesPage c answer path filters =
      Some (c', answer\<lparr>Rules := Rules answer @ concat (map snd (p # ps))\<rparr>, Returns None)"
    by (subst fetchWAFRuleStatusesPage.simps)
      (simp add: Client_Get_def t getPages_def ra d appendRules_rulesOf [OF rs] nx rec p)
  with tr show ?case by auto
qed

text \<open>
  C10. When the first page of rule statuses and any number of pages after it are fetched
  and decoded, and the fetch of the page that the last of them links to ends in a
  transport error or a decode error, \<open>GetWAFRuleStatuses\<close> returns: its error is nil and its
  rules are those of the pages before the failure, in order.
\<close>

theorem later_page_error_discarded:
  assumes "Service_w i \<noteq> []" and "WAF i \<noteq> []"
    and "served (transport c) \<lparr>Params = formatFilters i, Headers = Map.empty\<rparr>
           (''/service/'' @ Service_w i @ ''/wafs/'' @ WAF i @ ''/rule_statuses'')
           ((b, rs) # ps) stop"
    and "failsAt (transport c) \<lparr>Params = formatFilters i, Headers = Map.empty\<rparr> stop"
  shows "map_option snd (GetWAFRuleStatuses c i) =
           Some (Returns (\<lparr>Rules = rs @ concat (map snd ps),
                            Links_w = \<lparr>First = [], Last = [], Next = []\<rparr>\<rparr>, None))"
proof -
  from fetch_served [OF assms(3,4),
      of "\<lparr>Rules = [], Links_w = \<lparr>First = [], Last = [], Next = []\<rparr>\<rparr>"]
  show ?thesis
    using assms(1,2) by (auto simp: GetWAFRuleStatuses_def)
qed

theorem later_page_error_discarded_witness:
  "map_option snd (GetWAFRuleStatuses wafClient exampleInput) =
     Some (Returns (\<lparr>Rules = [\<lparr>RuleID = 1010010, WAFID = ''5Kbr2ygSdgCrQWvcXXPm3C'',
                               StatusID = ''5Kbr2ygSdgCrQWvcXXPm3C-1010010'', Status = ''log''\<rparr>],
                      Links_w = \<lparr>First = [], Last = [], Next = []\<rparr>\<rparr>, None))"
proof -
  let ?f = "\<lparr>Params = formatFilters exampleInput, Headers = Map.empty\<rparr>"
  let ?r = "\<lparr>RuleID = 1010010, WAFID = ''5Kbr2ygSdgCrQWvcXXPm3C'',
             StatusID = ''5Kbr2ygSdgCrQWvcXXPm3C-1010010'', Status = ''log''\<rparr>"
  have h1: "Service_w exampleInput \<noteq> []" and h2: "WAF exampleInput \<noteq> []"
    by (simp_all add: exampleInput_def)
  have h3: "served (transport wafClient) ?f
      (''/service/'' @ Service_w exampleInput @ ''/wafs/'' @ WAF exampleInput @ ''/rule_statuses'')
      ((exampleStatuses, [?r]) # []) ''/rule_statuses?page[number]=2''"
    by (simp add: wafClient_def servePaths_def exampleInput_def exampleStatuses_def
        exampleStatus_def simplify_def)
  have h4: "failsAt (transport wafClient) ?f ''/rule_statuses?page[number]=2''"
    by (simp add: failsAt_def wafClient_def servePaths_def)
  from later_page_error_discarded [OF h1 h2 h3 h4]
  show ?thesis by simp
qed

end
